theory Spec2Isabelle
  imports Main
begin

section \<open>The connection broker of the tab-share extension\<close>

text \<open>
  A shallow embedding of the background script's class \<open>TabShareExtension\<close>.
  The broker state is a record that every handler takes and returns. Each handler
  is modelled as one atomic transition: it runs to completion, and the host calls
  it awaits (badge, tab and window updates) return before the next event is
  delivered. The objects of class \<open>RelayConnection\<close> live in a heap
  (\<open>links\<close>) indexed by the identity of the object; the two JavaScript
  \<open>Map\<close>s are association lists in insertion order. The host's timers are
  a third association list from the timer id to what the callback has captured.
  Calls of \<open>debugLog\<close> are diagnostic output and are left out.
\<close>

type_synonym tabId = nat
type_synonym windowId = nat
type_synonym linkId = nat
type_synonym timerHandle = nat

subsection \<open>JavaScript \<open>Map\<close> as an association list in insertion order\<close>

definition mapGet :: "'k \<Rightarrow> ('k \<times> 'v) list \<Rightarrow> 'v option" where
  "mapGet k m = map_of m k"

definition mapHas :: "'k \<Rightarrow> ('k \<times> 'v) list \<Rightarrow> bool" where
  "mapHas k m = (map_of m k \<noteq> None)"

text \<open>\<open>Map.set\<close>: an existing key keeps its position, a new key goes to the end.\<close>

fun mapSet :: "'k \<Rightarrow> 'v \<Rightarrow> ('k \<times> 'v) list \<Rightarrow> ('k \<times> 'v) list" where
  "mapSet k v [] = [(k, v)]"
| "mapSet k v (p # ps) = (if fst p = k then (k, v) # ps else p # mapSet k v ps)"

definition mapDelete :: "'k \<Rightarrow> ('k \<times> 'v) list \<Rightarrow> ('k \<times> 'v) list" where
  "mapDelete k m = filter (\<lambda>p. fst p \<noteq> k) m"

definition mapKeys :: "('k \<times> 'v) list \<Rightarrow> 'k list" where
  "mapKeys m = map fst m"

subsection \<open>Data model\<close>

text \<open>
  The close callback a connection currently carries. The source assigns
  \<open>connection.onclose\<close> twice: in \<open>_connectToRelay\<close> (a closure over
  \<open>selectorTabId\<close>) and in \<open>_connectTab\<close> (a closure over \<open>tabId\<close>).
\<close>

datatype closeHandler = NoHandler | PendingHandler tabId | ActiveHandler tabId

record relayConnection =
  closed :: bool
  boundTab :: "tabId option"
  onclose :: closeHandler

text \<open>A value of \<open>_pendingTabSelection\<close>: \<open>{ connection, timerId? }\<close>.\<close>

record pendingEntry =
  connection :: linkId
  timerId :: "timerHandle option"

text \<open>What the broker asks of the host and of its connections, in the order of the calls.\<close>

datatype hostCall =
    ConnectionClose linkId string
  | SetBadgeText tabId string
  | SetTitle tabId string
  | SetBadgeBackgroundColor tabId string
  | TabsUpdateActive tabId
  | WindowsUpdateFocused windowId
  | TabsSendMessage tabId string
  | ClearTimeout timerHandle

record broker =
  activeConnections :: "(tabId \<times> linkId) list"
  lastConnectedTabId :: "tabId option"
  pendingTabSelection :: "(tabId \<times> pendingEntry) list"
  links :: "linkId \<Rightarrow> relayConnection"
  nextLink :: linkId
  timers :: "(timerHandle \<times> (tabId \<times> linkId)) list"
  nextTimer :: timerHandle
  hostCalls :: "hostCall list"

datatype error = Error string

definition freshConnection :: relayConnection where
  "freshConnection = \<lparr>closed = False, boundTab = None, onclose = NoHandler\<rparr>"

text \<open>The state after the constructor: both maps empty, no last tab. Timer ids start at 1,
  as the host's \<open>setTimeout\<close> never returns 0.\<close>

definition initial :: broker where
  "initial = \<lparr>activeConnections = [], lastConnectedTabId = None, pendingTabSelection = [],
     links = (\<lambda>_. freshConnection), nextLink = 0, timers = [], nextTimer = 1, hostCalls = []\<rparr>"

subsection \<open>Badge\<close>

text \<open>\<open>_updateBadge\<close>: set the text, set the title (\<open>title || ''\<close>), and the colour
  when one is given. Errors of the host are swallowed by the source, so the broker state
  never depends on them.\<close>

definition updateBadge :: "tabId \<Rightarrow> string \<Rightarrow> string option \<Rightarrow> string option \<Rightarrow> broker \<Rightarrow> broker" where
  "updateBadge t txt color title s =
     s\<lparr>hostCalls := hostCalls s
          @ [SetBadgeText t txt, SetTitle t (case title of None \<Rightarrow> [] | Some x \<Rightarrow> x)]
          @ (case color of None \<Rightarrow> [] | Some c \<Rightarrow> if c \<noteq> [] then [SetBadgeBackgroundColor t c] else [])\<rparr>"

text \<open>The badge glyph of the source is the check mark, here as its UTF-8 bytes.\<close>

definition addConnectedTab :: "tabId \<Rightarrow> broker \<Rightarrow> broker" where
  "addConnectedTab t s =
     updateBadge t [CHR 0xE2, CHR 0x9C, CHR 0x93] (Some ''#4CAF50'') (Some ''Connected to MCP client'') s"

definition removeConnectedTab :: "tabId \<Rightarrow> broker \<Rightarrow> broker" where
  "removeConnectedTab t s =
     (let s1 = updateBadge t [] None None s in
      if lastConnectedTabId s1 = Some t then
        (let remainingTabs = mapKeys (activeConnections s1) in
         s1\<lparr>lastConnectedTabId :=
              (if length remainingTabs > 0 then Some (remainingTabs ! (length remainingTabs - 1))
               else None)\<rparr>)
      else s1)"

subsection \<open>Relay connections\<close>

text \<open>The two close callbacks, as the source writes them (lines 107-111 and 143-147).\<close>

definition fireOnclose :: "closeHandler \<Rightarrow> broker \<Rightarrow> broker" where
  "fireOnclose h s =
     (case h of
        NoHandler \<Rightarrow> s
      | PendingHandler sel \<Rightarrow> s\<lparr>pendingTabSelection := mapDelete sel (pendingTabSelection s)\<rparr>
      | ActiveHandler t \<Rightarrow>
          removeConnectedTab t (s\<lparr>activeConnections := mapDelete t (activeConnections s)\<rparr>))"

text \<open>
  Modelled from the spec: the class \<open>RelayConnection\<close> (module \<open>relayConnection\<close>) is
  not among the source files. The spec gives a relay link the lifecycle
  opening, open, bound, closed; \<open>closed\<close> is terminal, close is idempotent and takes a
  reason, and the close notification fires exactly once, whichever path closes the
  link. \<open>markClosed\<close> is that transition: a link already closed stays as it is, an
  open one becomes closed and its current callback runs once, within the same step.
\<close>

definition markClosed :: "linkId \<Rightarrow> broker \<Rightarrow> broker" where
  "markClosed l s =
     (if closed (links s l) then s
      else fireOnclose (onclose (links s l))
             (s\<lparr>links := (links s)(l := (links s l)\<lparr>closed := True\<rparr>)\<rparr>))"

text \<open>Modelled from the spec: \<open>connection.close(reason)\<close> of the absent class
  \<open>RelayConnection\<close>. The call is recorded, then the link goes through \<open>markClosed\<close>.\<close>

definition closeLink :: "linkId \<Rightarrow> string \<Rightarrow> broker \<Rightarrow> broker" where
  "closeLink l reason s = markClosed l (s\<lparr>hostCalls := hostCalls s @ [ConnectionClose l reason]\<rparr>)"

text \<open>Modelled from the spec: \<open>connection.setTabId(tabId)\<close> of the absent class
  \<open>RelayConnection\<close> binds the link to a tab.\<close>

definition setTabId :: "linkId \<Rightarrow> tabId \<Rightarrow> broker \<Rightarrow> broker" where
  "setTabId l t s = s\<lparr>links := (links s)(l := (links s l)\<lparr>boundTab := Some t\<rparr>)\<rparr>"

definition setOnclose :: "linkId \<Rightarrow> closeHandler \<Rightarrow> broker \<Rightarrow> broker" where
  "setOnclose l h s = s\<lparr>links := (links s)(l := (links s l)\<lparr>onclose := h\<rparr>)\<rparr>"

subsection \<open>Request handlers\<close>

text \<open>How the \<open>WebSocket\<close> of \<open>_connectToRelay\<close> ends its handshake: it opens, it
  reports an error, or the 5000 ms timer rejects first.\<close>

datatype socketOutcome = SocketOpened | SocketFailed | SocketTimedOut

definition connectToRelay :: "tabId \<Rightarrow> string \<Rightarrow> socketOutcome \<Rightarrow> broker \<Rightarrow> (error + unit) \<times> broker" where
  "connectToRelay selectorTabId mcpRelayUrl outcome s =
     (case outcome of
        SocketOpened \<Rightarrow>
          (let c = nextLink s;
               s1 = s\<lparr>links := (links s)(c := freshConnection), nextLink := Suc c\<rparr>;
               s2 = setOnclose c (PendingHandler selectorTabId) s1
           in (Inr (), s2\<lparr>pendingTabSelection :=
                 mapSet selectorTabId \<lparr>connection = c, timerId = None\<rparr> (pendingTabSelection s2)\<rparr>))
      | SocketFailed \<Rightarrow> (Inl (Error (''Failed to connect to MCP relay: '' @ ''WebSocket error'')), s)
      | SocketTimedOut \<Rightarrow> (Inl (Error (''Failed to connect to MCP relay: '' @ ''Connection timeout'')), s))"

text \<open>\<open>_connectTab\<close>. The argument \<open>hostError\<close> is the outcome of the three host calls
  awaited together at the end: \<open>None\<close> when all resolve, the message of the rejection
  otherwise. The order of the source is kept: the active connection of the target tab is
  closed and deleted before the pending entry is looked up, and every error goes through
  \<open>_removeConnectedTab\<close> in the \<open>catch\<close> block.\<close>

definition connectTab :: "tabId \<Rightarrow> tabId \<Rightarrow> windowId \<Rightarrow> string \<Rightarrow> string option \<Rightarrow> broker \<Rightarrow> (error + unit) \<times> broker" where
  "connectTab selectorTabId t w mcpRelayUrl hostError s =
     (let s1 = (case mapGet t (activeConnections s) of
                  Some existingConnection \<Rightarrow>
                    (let a = closeLink existingConnection ''New connection requested for this tab'' s;
                         b = a\<lparr>activeConnections := mapDelete t (activeConnections a)\<rparr>
                     in updateBadge t [] None None b)
                | None \<Rightarrow> s)
      in case mapGet selectorTabId (pendingTabSelection s1) of
           None \<Rightarrow> (Inl (Error ''No active MCP relay connection''), removeConnectedTab t s1)
         | Some pending \<Rightarrow>
             (let pendingConnection = connection pending;
                  s2 = s1\<lparr>pendingTabSelection := mapDelete selectorTabId (pendingTabSelection s1)\<rparr>;
                  s3 = setOnclose pendingConnection (ActiveHandler t) (setTabId pendingConnection t s2);
                  s4 = s3\<lparr>activeConnections := mapSet t pendingConnection (activeConnections s3),
                          lastConnectedTabId := Some t\<rparr>;
                  s5 = (addConnectedTab t s4)\<lparr>hostCalls := hostCalls (addConnectedTab t s4)
                          @ [TabsUpdateActive t, WindowsUpdateFocused w]\<rparr>
              in case hostError of
                   None \<Rightarrow> (Inr (), s5)
                 | Some msg \<Rightarrow> (Inl (Error msg), removeConnectedTab t s5)))"

text \<open>\<open>_disconnect\<close> with no tab id walks the active map. A JavaScript \<open>Map\<close> iterator
  is live: an entry deleted before the iterator reaches it is not visited. The loop runs
  over the entries as they were at the start and skips a key that is gone.\<close>

fun disconnectLoop :: "(tabId \<times> linkId) list \<Rightarrow> broker \<Rightarrow> broker" where
  "disconnectLoop [] s = s"
| "disconnectLoop ((connectedTabId, c) # rest) s =
     (if mapHas connectedTabId (activeConnections s)
      then disconnectLoop rest (removeConnectedTab connectedTabId (closeLink c ''User disconnected'' s))
      else disconnectLoop rest s)"

definition disconnect :: "tabId option \<Rightarrow> broker \<Rightarrow> broker" where
  "disconnect tabIdOpt s =
     (case tabIdOpt of
        Some t \<Rightarrow>
          (case mapGet t (activeConnections s) of
             Some c \<Rightarrow>
               (let a = closeLink c ''User disconnected'' s;
                    b = a\<lparr>activeConnections := mapDelete t (activeConnections a)\<rparr>
                in removeConnectedTab t b)
           | None \<Rightarrow> s)
      | None \<Rightarrow>
          (let a = disconnectLoop (activeConnections s) s
           in a\<lparr>activeConnections := [], lastConnectedTabId := None\<rparr>))"

subsection \<open>Tab lifecycle\<close>

definition onTabRemoved :: "tabId \<Rightarrow> broker \<Rightarrow> broker" where
  "onTabRemoved t s =
     (case mapGet t (pendingTabSelection s) of
        Some pending \<Rightarrow>
          closeLink (connection pending) ''Browser tab closed''
            (s\<lparr>pendingTabSelection := mapDelete t (pendingTabSelection s)\<rparr>)
      | None \<Rightarrow>
          (case mapGet t (activeConnections s) of
             Some activeConnection \<Rightarrow>
               (let a = closeLink activeConnection ''Browser tab closed'' s;
                    b = a\<lparr>activeConnections := mapDelete t (activeConnections a)\<rparr>
                in removeConnectedTab t b)
           | None \<Rightarrow> s))"

definition onTabUpdated :: "tabId \<Rightarrow> broker \<Rightarrow> broker" where
  "onTabUpdated t s = (if mapHas t (activeConnections s) then addConnectedTab t s else s)"

text \<open>The host's timers. \<open>setTimeout\<close> hands out the next id and keeps what the callback
  captured: the selector tab and the connection of the entry it was armed for.\<close>

definition setTimeout :: "tabId \<times> linkId \<Rightarrow> broker \<Rightarrow> timerHandle \<times> broker" where
  "setTimeout closure s =
     (nextTimer s, s\<lparr>timers := timers s @ [(nextTimer s, closure)], nextTimer := Suc (nextTimer s)\<rparr>)"

definition clearTimeout :: "timerHandle \<Rightarrow> broker \<Rightarrow> broker" where
  "clearTimeout i s = s\<lparr>timers := mapDelete i (timers s), hostCalls := hostCalls s @ [ClearTimeout i]\<rparr>"

text \<open>JavaScript truthiness of \<open>pending.timerId\<close>: \<open>undefined\<close> and 0 are falsy.\<close>

definition truthy :: "timerHandle option \<Rightarrow> bool" where
  "truthy x = (case x of None \<Rightarrow> False | Some i \<Rightarrow> i \<noteq> 0)"

text \<open>The loop of \<open>_onTabActivated\<close> over the pending map. It writes \<open>timerId\<close> into the
  entry it is visiting, so it returns the entries as it leaves them. The \<open>return\<close> of
  the source after arming a timer is the third branch: the rest of the map is not visited.\<close>

fun activatedLoop :: "tabId \<Rightarrow> (tabId \<times> pendingEntry) list \<Rightarrow> broker \<Rightarrow> (tabId \<times> pendingEntry) list \<times> broker" where
  "activatedLoop activeTab [] s = ([], s)"
| "activatedLoop activeTab ((t, pending) # rest) s =
     (if t = activeTab then
        (case timerId pending of
           Some i \<Rightarrow>
             (if i \<noteq> 0 then
                (let r = activatedLoop activeTab rest (clearTimeout i s)
                 in ((t, pending\<lparr>timerId := None\<rparr>) # fst r, snd r))
              else (let r = activatedLoop activeTab rest s in ((t, pending) # fst r, snd r)))
         | None \<Rightarrow> (let r = activatedLoop activeTab rest s in ((t, pending) # fst r, snd r)))
      else if \<not> truthy (timerId pending) then
        (let r = setTimeout (t, connection pending) s
         in ((t, pending\<lparr>timerId := Some (fst r)\<rparr>) # rest, snd r))
      else (let r = activatedLoop activeTab rest s in ((t, pending) # fst r, snd r)))"

definition onTabActivated :: "tabId \<Rightarrow> broker \<Rightarrow> broker" where
  "onTabActivated activeTab s =
     (let r = activatedLoop activeTab (pendingTabSelection s) s
      in (snd r)\<lparr>pendingTabSelection := fst r\<rparr>)"

text \<open>The callback given to \<open>setTimeout\<close> (lines 218-224), run when timer \<open>i\<close> fires.
  A timer that is not armed does not fire.\<close>

definition timerFired :: "timerHandle \<Rightarrow> broker \<Rightarrow> broker" where
  "timerFired i s =
     (case mapGet i (timers s) of
        None \<Rightarrow> s
      | Some closure \<Rightarrow>
          (let s1 = s\<lparr>timers := mapDelete i (timers s)\<rparr>;
               existed = mapHas (fst closure) (pendingTabSelection s1);
               s2 = s1\<lparr>pendingTabSelection := mapDelete (fst closure) (pendingTabSelection s1)\<rparr>
           in if existed then
                (let s3 = closeLink (snd closure) ''Tab has been inactive for 5 seconds'' s2
                 in s3\<lparr>hostCalls := hostCalls s3 @ [TabsSendMessage (fst closure) ''connectionTimeout'']\<rparr>)
              else s2))"

subsection \<open>Message dispatch\<close>

record tab =
  tabIdent :: tabId
  tabUrl :: "string option"

definition startsWith :: "string \<Rightarrow> string \<Rightarrow> bool" where
  "startsWith u p = (take (length p) u = p)"

definition getTabs :: "tab list \<Rightarrow> tab list" where
  "getTabs hostTabs =
     filter (\<lambda>tb. case tabUrl tb of
                     None \<Rightarrow> False
                   | Some u \<Rightarrow> u \<noteq> [] \<and> \<not> list_ex (startsWith u) [''chrome:'', ''edge:'', ''devtools:''])
       hostTabs"

datatype pageMessage =
    ConnectToMCPRelay string
  | GetTabs
  | ConnectToTab "tabId option" "windowId option" string
  | GetConnectionStatus
  | GetAllConnections
  | Disconnect "tabId option"

record sender =
  senderTabId :: tabId
  senderWindowId :: windowId

text \<open>What the host decides while a handler waits for it.\<close>

record hostEnv =
  socketOutcome :: socketOutcome
  hostError :: "string option"
  hostTabs :: "tab list"

datatype response =
    Success
  | SuccessTabs "tab list" tabId
  | SuccessTab tabId
  | Failure string
  | ConnectionStatus "tabId option" "tabId list"
  | AllConnections "tabId list"

definition orElse :: "nat option \<Rightarrow> nat \<Rightarrow> nat" where
  "orElse x d = (case x of None \<Rightarrow> d | Some v \<Rightarrow> if v \<noteq> 0 then v else d)"

definition reply :: "response \<Rightarrow> (error + unit) \<times> broker \<Rightarrow> response \<times> broker" where
  "reply ok r = (case fst r of Inl (Error msg) \<Rightarrow> (Failure msg, snd r) | Inr _ \<Rightarrow> (ok, snd r))"

fun onMessage :: "pageMessage \<Rightarrow> sender \<Rightarrow> hostEnv \<Rightarrow> broker \<Rightarrow> response \<times> broker" where
  "onMessage (ConnectToMCPRelay mcpRelayUrl) sndr env s =
     reply Success (connectToRelay (senderTabId sndr) mcpRelayUrl (socketOutcome env) s)"
| "onMessage GetTabs sndr env s = (SuccessTabs (getTabs (hostTabs env)) (senderTabId sndr), s)"
| "onMessage (ConnectToTab msgTab msgWindow mcpRelayUrl) sndr env s =
     (let t = orElse msgTab (senderTabId sndr);
          w = orElse msgWindow (senderWindowId sndr)
      in reply (SuccessTab t) (connectTab (senderTabId sndr) t w mcpRelayUrl (hostError env) s))"
| "onMessage GetConnectionStatus sndr env s =
     (ConnectionStatus (lastConnectedTabId s) (mapKeys (activeConnections s)), s)"
| "onMessage GetAllConnections sndr env s = (AllConnections (mapKeys (activeConnections s)), s)"
| "onMessage (Disconnect tabIdOpt) sndr env s = (Success, disconnect tabIdOpt s)"

subsection \<open>Events and reachable states\<close>

text \<open>Everything that can happen to the broker: a message from a page, the three tab
  events it listens to, a timer firing, and a relay socket closing on its own.\<close>

datatype event =
    Message pageMessage sender hostEnv
  | TabRemoved tabId
  | TabUpdated tabId
  | TabActivated tabId
  | TimerFired timerHandle
  | SocketClosed linkId

fun step :: "event \<Rightarrow> broker \<Rightarrow> broker" where
  "step (Message m sndr env) s = snd (onMessage m sndr env s)"
| "step (TabRemoved t) s = onTabRemoved t s"
| "step (TabUpdated t) s = onTabUpdated t s"
| "step (TabActivated t) s = onTabActivated t s"
| "step (TimerFired i) s = timerFired i s"
| "step (SocketClosed l) s = (if l < nextLink s then markClosed l s else s)"

fun run :: "event list \<Rightarrow> broker \<Rightarrow> broker" where
  "run [] s = s"
| "run (e # es) s = run es (step e s)"

inductive reachable :: "broker \<Rightarrow> bool" where
  reachable_initial: "reachable initial"
| reachable_step: "reachable s \<Longrightarrow> reachable (step e s)"

section \<open>Properties of broker states\<close>

text \<open>The links the two maps refer to.\<close>

definition pendingLinks :: "broker \<Rightarrow> linkId set" where
  "pendingLinks s = (\<lambda>p. connection (snd p)) ` set (pendingTabSelection s)"

definition activeLinks :: "broker \<Rightarrow> linkId set" where
  "activeLinks s = snd ` set (activeConnections s)"

text \<open>The invariant behind the map properties: a link held by the pending map is open and
  carries the pending callback of its key, a link held by the active map is open and carries
  the active callback of its key, and both were handed out by \<open>_connectToRelay\<close>.\<close>

definition linksOk :: "broker \<Rightarrow> bool" where
  "linksOk s =
     ((\<forall>p \<in> set (pendingTabSelection s).
          \<not> closed (links s (connection (snd p))) \<and>
          onclose (links s (connection (snd p))) = PendingHandler (fst p) \<and>
          connection (snd p) < nextLink s) \<and>
      (\<forall>p \<in> set (activeConnections s).
          \<not> closed (links s (snd p)) \<and>
          onclose (links s (snd p)) = ActiveHandler (fst p) \<and>
          snd p < nextLink s))"

text \<open>The legacy pointer names a tab of the active map, and it is empty only when the map is
  (\<open>lastOk\<close>). While a handler is between deleting the entry of \<open>t\<close> and
  \<open>_removeConnectedTab\<close>, the pointer may still name \<open>t\<close> (\<open>lastOkExcept\<close>).\<close>

definition lastOk :: "broker \<Rightarrow> bool" where
  "lastOk s =
     ((lastConnectedTabId s = None \<longrightarrow> activeConnections s = []) \<and>
      (\<forall>u. lastConnectedTabId s = Some u \<longrightarrow> mapHas u (activeConnections s)))"

definition lastOkExcept :: "tabId \<Rightarrow> broker \<Rightarrow> bool" where
  "lastOkExcept t s =
     ((lastConnectedTabId s = None \<longrightarrow> activeConnections s = []) \<and>
      (\<forall>u. lastConnectedTabId s = Some u \<longrightarrow> u = t \<or> mapHas u (activeConnections s)))"

text \<open>The key \<open>_removeConnectedTab\<close> picks: the last one in insertion order, if any.\<close>

definition lastKey :: "('k \<times> 'v) list \<Rightarrow> 'k option" where
  "lastKey m = (if m = [] then None else Some (fst (last m)))"

text \<open>What the removal of the active connection of tab \<open>t\<close> must leave: the entry of \<open>t\<close> is
  gone from the active map, and \<open>lastConnectedTabId\<close> is a tab of the active map, or none
  exactly when the map is empty.\<close>

definition lastResetAfterRemoval :: "tabId \<Rightarrow> broker \<Rightarrow> broker \<Rightarrow> bool" where
  "lastResetAfterRemoval t s s' =
     (activeConnections s' = mapDelete t (activeConnections s) \<and>
      (case lastConnectedTabId s' of
         None \<Rightarrow> activeConnections s' = []
       | Some u \<Rightarrow> mapHas u (activeConnections s')))"

section \<open>Scenarios\<close>

text \<open>States reached from the initial one, used by the examples below.
  \<open>onePending\<close>: tab 1 has opened a relay link (link 0).
  \<open>oneBound\<close>: tab 1 has then bound it to tab 2.
  \<open>boundAndPending\<close>: tab 1 has opened a second link (link 1) after that.
  \<open>twoPending\<close>: tabs 1 and 2 each hold a pending link.
  \<open>onePendingArmed\<close>: tab 1 holds a pending link and tab 9 was activated, which arms timer 1.
  \<open>twoBound\<close>: links are bound to tabs 3 and 7, in this order.\<close>

definition onePending :: broker where
  "onePending = snd (connectToRelay 1 ''ws'' SocketOpened initial)"

definition oneBound :: broker where
  "oneBound = snd (connectTab 1 2 10 ''ws'' None onePending)"

definition boundAndPending :: broker where
  "boundAndPending = snd (connectToRelay 1 ''ws'' SocketOpened oneBound)"

definition twoPending :: broker where
  "twoPending = snd (connectToRelay 2 ''ws'' SocketOpened onePending)"

definition onePendingArmed :: broker where
  "onePendingArmed = onTabActivated 9 onePending"

definition twoBound :: broker where
  "twoBound = snd (connectTab 1 7 10 ''ws'' None (snd (connectToRelay 1 ''ws'' SocketOpened
                (snd (connectTab 1 3 10 ''ws'' None onePending)))))"

text \<open>\<open>promotedArmed\<close>: the armed pending link of tab 1 has been bound to tab 2.
  \<open>staleTimer\<close>: tab 1 has opened another relay link after that; timer 1 is still armed.
  \<open>mixedTimers\<close>: tabs 1 and 2 hold pending links; tab 3 was activated twice, which armed a
  timer for each of them in turn, then tab 1, which cleared the timer of tab 1.\<close>

definition promotedArmed :: broker where
  "promotedArmed = snd (connectTab 1 2 10 ''ws'' None onePendingArmed)"

definition staleTimer :: broker where
  "staleTimer = snd (connectToRelay 1 ''ws'' SocketOpened promotedArmed)"

definition mixedTimers :: broker where
  "mixedTimers = onTabActivated 1 (onTabActivated 3 (onTabActivated 3 twoPending))"

section \<open>Lemmas\<close>

lemma mapGet_mem: "mapGet k m = Some v \<Longrightarrow> (k, v) \<in> set m"
  by (simp add: mapGet_def map_of_SomeD)

lemma set_mapDelete: "set (mapDelete k m) = {p \<in> set m. fst p \<noteq> k}"
  by (auto simp: mapDelete_def)

lemma set_mapSet: "set (mapSet k v m) \<subseteq> insert (k, v) (set m)"
  by (induction m) auto

lemma updateBadge_frame [simp]:
  "activeConnections (updateBadge t x c ti s) = activeConnections s"
  "lastConnectedTabId (updateBadge t x c ti s) = lastConnectedTabId s"
  "pendingTabSelection (updateBadge t x c ti s) = pendingTabSelection s"
  "links (updateBadge t x c ti s) = links s"
  "nextLink (updateBadge t x c ti s) = nextLink s"
  "timers (updateBadge t x c ti s) = timers s"
  "nextTimer (updateBadge t x c ti s) = nextTimer s"
  by (simp_all add: updateBadge_def)

lemma removeConnectedTab_frame [simp]:
  "activeConnections (removeConnectedTab t s) = activeConnections s"
  "pendingTabSelection (removeConnectedTab t s) = pendingTabSelection s"
  "links (removeConnectedTab t s) = links s"
  "nextLink (removeConnectedTab t s) = nextLink s"
  "timers (removeConnectedTab t s) = timers s"
  "nextTimer (removeConnectedTab t s) = nextTimer s"
  by (simp_all add: removeConnectedTab_def Let_def)

lemma addConnectedTab_frame [simp]:
  "activeConnections (addConnectedTab t s) = activeConnections s"
  "lastConnectedTabId (addConnectedTab t s) = lastConnectedTabId s"
  "pendingTabSelection (addConnectedTab t s) = pendingTabSelection s"
  "links (addConnectedTab t s) = links s"
  "nextLink (addConnectedTab t s) = nextLink s"
  "timers (addConnectedTab t s) = timers s"
  "nextTimer (addConnectedTab t s) = nextTimer s"
  by (simp_all add: addConnectedTab_def)

lemma linksOk_cong:
  "pendingTabSelection s' = pendingTabSelection s \<Longrightarrow> activeConnections s' = activeConnections s \<Longrightarrow>
   links s' = links s \<Longrightarrow> nextLink s' = nextLink s \<Longrightarrow> linksOk s' = linksOk s"
  by (simp add: linksOk_def)

lemma linksOk_updateBadge [simp]: "linksOk (updateBadge t x c ti s) = linksOk s"
  by (rule linksOk_cong) simp_all

lemma linksOk_removeConnectedTab [simp]: "linksOk (removeConnectedTab t s) = linksOk s"
  by (rule linksOk_cong) simp_all

lemma linksOk_addConnectedTab [simp]: "linksOk (addConnectedTab t s) = linksOk s"
  by (rule linksOk_cong) simp_all

lemma linksOk_hostCalls [simp]: "linksOk (s\<lparr>hostCalls := h\<rparr>) = linksOk s"
  by (rule linksOk_cong) simp_all

lemma linksOk_timers [simp]: "linksOk (s\<lparr>timers := h\<rparr>) = linksOk s"
  by (rule linksOk_cong) simp_all

lemma linksOk_delete_active: "linksOk s \<Longrightarrow> linksOk (s\<lparr>activeConnections := mapDelete t (activeConnections s)\<rparr>)"
  by (auto simp: linksOk_def set_mapDelete)

lemma linksOk_delete_pending: "linksOk s \<Longrightarrow> linksOk (s\<lparr>pendingTabSelection := mapDelete t (pendingTabSelection s)\<rparr>)"
  by (auto simp: linksOk_def set_mapDelete)

lemma linksOk_markClosed: "linksOk s \<Longrightarrow> linksOk (markClosed l s)"
proof -
  assume ok: "linksOk s"
  show ?thesis
  proof (cases "closed (links s l)")
    case True
    then show ?thesis using ok by (simp add: markClosed_def)
  next
    case False
    show ?thesis
    proof (cases "onclose (links s l)")
      case NoHandler
      then show ?thesis using ok False
        by (auto simp: markClosed_def fireOnclose_def linksOk_def)
    next
      case (PendingHandler k)
      then show ?thesis using ok False
        by (auto simp: markClosed_def fireOnclose_def linksOk_def set_mapDelete)
    next
      case (ActiveHandler k)
      then have "linksOk (s\<lparr>links := (links s)(l := (links s l)\<lparr>closed := True\<rparr>),
                   activeConnections := mapDelete k (activeConnections s)\<rparr>)"
        using ok False by (auto simp: linksOk_def set_mapDelete)
      then show ?thesis using ActiveHandler False
        by (simp add: markClosed_def fireOnclose_def)
    qed
  qed
qed

lemma linksOk_closeLink: "linksOk s \<Longrightarrow> linksOk (closeLink l r s)"
  by (simp add: closeLink_def linksOk_markClosed)

lemma markClosed_frame [simp]:
  "nextLink (markClosed l s) = nextLink s"
  "timers (markClosed l s) = timers s"
  "nextTimer (markClosed l s) = nextTimer s"
  by (simp_all add: markClosed_def fireOnclose_def split: closeHandler.splits)

lemma closeLink_frame [simp]:
  "nextLink (closeLink l r s) = nextLink s"
  "timers (closeLink l r s) = timers s"
  "nextTimer (closeLink l r s) = nextTimer s"
  by (simp_all add: closeLink_def)

lemma linksOk_connectToRelay: "linksOk s \<Longrightarrow> linksOk (snd (connectToRelay sel url out s))"
proof (cases out)
  case SocketOpened
  assume ok: "linksOk s"
  have sub: "set (mapSet sel \<lparr>connection = nextLink s, timerId = None\<rparr> (pendingTabSelection s))
               \<subseteq> insert (sel, \<lparr>connection = nextLink s, timerId = None\<rparr>) (set (pendingTabSelection s))"
    by (rule set_mapSet)
  show ?thesis using ok SocketOpened sub
    by (fastforce simp: connectToRelay_def linksOk_def setOnclose_def freshConnection_def Let_def)
qed (simp_all add: connectToRelay_def)

lemma linksOk_promote:
  assumes ok: "linksOk s" and g: "mapGet sel (pendingTabSelection s) = Some e"
  shows "linksOk ((setOnclose (connection e) (ActiveHandler t)
             (setTabId (connection e) t (s\<lparr>pendingTabSelection := mapDelete sel (pendingTabSelection s)\<rparr>)))
           \<lparr>activeConnections := mapSet t (connection e)
               (activeConnections (setOnclose (connection e) (ActiveHandler t)
             (setTabId (connection e) t (s\<lparr>pendingTabSelection := mapDelete sel (pendingTabSelection s)\<rparr>)))),
             lastConnectedTabId := Some t\<rparr>)"
    (is "linksOk ?s'")
proof -
  let ?pc = "connection e"
  have mem: "(sel, e) \<in> set (pendingTabSelection s)" using g by (rule mapGet_mem)
  have pc: "\<not> closed (links s ?pc)" "onclose (links s ?pc) = PendingHandler sel" "?pc < nextLink s"
    using ok mem by (auto simp: linksOk_def)
  have lk: "links ?s' = (links s)(?pc := (links s ?pc)\<lparr>boundTab := Some t, onclose := ActiveHandler t\<rparr>)"
    by (simp add: setOnclose_def setTabId_def)
  have pe: "pendingTabSelection ?s' = mapDelete sel (pendingTabSelection s)"
    by (simp add: setOnclose_def setTabId_def)
  have ac: "activeConnections ?s' = mapSet t ?pc (activeConnections s)"
    by (simp add: setOnclose_def setTabId_def)
  have nl: "nextLink ?s' = nextLink s"
    by (simp add: setOnclose_def setTabId_def)
  have P: "\<forall>p \<in> set (pendingTabSelection ?s').
          \<not> closed (links ?s' (connection (snd p))) \<and>
          onclose (links ?s' (connection (snd p))) = PendingHandler (fst p) \<and>
          connection (snd p) < nextLink ?s'"
  proof
    fix p assume "p \<in> set (pendingTabSelection ?s')"
    then have p: "p \<in> set (pendingTabSelection s)" "fst p \<noteq> sel"
      by (simp_all add: pe set_mapDelete)
    then have old: "\<not> closed (links s (connection (snd p)))"
        "onclose (links s (connection (snd p))) = PendingHandler (fst p)"
        "connection (snd p) < nextLink s"
      using ok by (auto simp: linksOk_def)
    have "connection (snd p) \<noteq> ?pc" using old(2) pc(2) p(2) by auto
    then show "\<not> closed (links ?s' (connection (snd p))) \<and>
          onclose (links ?s' (connection (snd p))) = PendingHandler (fst p) \<and>
          connection (snd p) < nextLink ?s'"
      using old by (simp add: lk nl)
  qed
  have A: "\<forall>p \<in> set (activeConnections ?s').
          \<not> closed (links ?s' (snd p)) \<and>
          onclose (links ?s' (snd p)) = ActiveHandler (fst p) \<and>
          snd p < nextLink ?s'"
  proof
    fix p assume "p \<in> set (activeConnections ?s')"
    then have "p = (t, ?pc) \<or> p \<in> set (activeConnections s)"
      using set_mapSet [of t ?pc "activeConnections s"] by (auto simp: ac)
    then show "\<not> closed (links ?s' (snd p)) \<and>
          onclose (links ?s' (snd p)) = ActiveHandler (fst p) \<and>
          snd p < nextLink ?s'"
    proof
      assume "p = (t, ?pc)"
      then show ?thesis using pc by (simp add: lk nl)
    next
      assume p: "p \<in> set (activeConnections s)"
      then have old: "\<not> closed (links s (snd p))"
        "onclose (links s (snd p)) = ActiveHandler (fst p)" "snd p < nextLink s"
        using ok by (auto simp: linksOk_def)
      have "snd p \<noteq> ?pc" using old(2) pc(2) by auto
      then show ?thesis using old by (simp add: lk nl)
    qed
  qed
  show ?thesis unfolding linksOk_def using P A by blast
qed

lemma linksOk_connectTab: "linksOk s \<Longrightarrow> linksOk (snd (connectTab sel t w url he s))"
proof -
  assume ok: "linksOk s"
  define s1 where "s1 = (case mapGet t (activeConnections s) of
                  Some existingConnection \<Rightarrow>
                    (let a = closeLink existingConnection ''New connection requested for this tab'' s;
                         b = a\<lparr>activeConnections := mapDelete t (activeConnections a)\<rparr>
                     in updateBadge t [] None None b)
                | None \<Rightarrow> s)"
  have ok1: "linksOk s1" using ok
    by (auto simp: s1_def Let_def linksOk_closeLink linksOk_delete_active split: option.splits)
  show ?thesis
  proof (cases "mapGet sel (pendingTabSelection s1)")
    case None
    then show ?thesis using ok1 by (simp add: connectTab_def s1_def [symmetric])
  next
    case (Some e)
    note pr = linksOk_promote [OF ok1 Some, of t]
    show ?thesis using Some pr
      by (cases he) (simp_all add: connectTab_def s1_def [symmetric] Let_def)
  qed
qed

lemma linksOk_disconnectLoop: "linksOk s \<Longrightarrow> linksOk (disconnectLoop xs s)"
  by (induction xs s rule: disconnectLoop.induct) (simp_all add: linksOk_closeLink)

lemma linksOk_clear: "linksOk s \<Longrightarrow> linksOk (s\<lparr>activeConnections := [], lastConnectedTabId := x\<rparr>)"
  by (simp add: linksOk_def)

lemma linksOk_disconnect: "linksOk s \<Longrightarrow> linksOk (disconnect x s)"
  by (auto simp: disconnect_def Let_def linksOk_closeLink linksOk_delete_active
        linksOk_disconnectLoop linksOk_clear split: option.splits)

lemma linksOk_onTabRemoved: "linksOk s \<Longrightarrow> linksOk (onTabRemoved t s)"
  by (auto simp: onTabRemoved_def Let_def linksOk_closeLink linksOk_delete_active
        linksOk_delete_pending split: option.splits)

lemma linksOk_onTabUpdated: "linksOk s \<Longrightarrow> linksOk (onTabUpdated t s)"
  by (simp add: onTabUpdated_def)

lemma linksOk_timerFired: "linksOk s \<Longrightarrow> linksOk (timerFired i s)"
proof -
  assume ok: "linksOk s"
  have d: "\<And>k. linksOk (s\<lparr>timers := mapDelete i (timers s),
              pendingTabSelection := mapDelete k (pendingTabSelection s)\<rparr>)"
    using ok by (auto simp: linksOk_def set_mapDelete)
  show ?thesis using ok d
    by (auto simp: timerFired_def Let_def linksOk_closeLink split: option.splits)
qed

lemma activatedLoop_frame [simp]:
  "activeConnections (snd (activatedLoop a ps s)) = activeConnections s"
  "lastConnectedTabId (snd (activatedLoop a ps s)) = lastConnectedTabId s"
  "links (snd (activatedLoop a ps s)) = links s"
  "nextLink (snd (activatedLoop a ps s)) = nextLink s"
  by (induction a ps s rule: activatedLoop.induct;
      simp add: Let_def setTimeout_def clearTimeout_def split: option.splits)+

lemma activatedLoop_entries:
  "map (\<lambda>p. (fst p, connection (snd p))) (fst (activatedLoop a ps s))
     = map (\<lambda>p. (fst p, connection (snd p))) ps"
  by (induction a ps s rule: activatedLoop.induct)
     (simp_all add: Let_def split: option.splits)

lemma linksOk_onTabActivated: "linksOk s \<Longrightarrow> linksOk (onTabActivated a s)"
proof -
  assume ok: "linksOk s"
  let ?r = "activatedLoop a (pendingTabSelection s) s"
  have "set (map (\<lambda>p. (fst p, connection (snd p))) (fst ?r))
          = set (map (\<lambda>p. (fst p, connection (snd p))) (pendingTabSelection s))"
    by (simp only: activatedLoop_entries)
  then have img: "(\<lambda>p. (fst p, connection (snd p))) ` set (fst ?r)
          = (\<lambda>p. (fst p, connection (snd p))) ` set (pendingTabSelection s)"
    by simp
  have "\<And>p. p \<in> set (fst ?r) \<Longrightarrow> \<exists>q \<in> set (pendingTabSelection s). fst q = fst p \<and> connection (snd q) = connection (snd p)"
  proof -
    fix p assume "p \<in> set (fst ?r)"
    then have "(fst p, connection (snd p)) \<in> (\<lambda>p. (fst p, connection (snd p))) ` set (pendingTabSelection s)"
      using img by blast
    then obtain q where "q \<in> set (pendingTabSelection s)"
        "(fst p, connection (snd p)) = (fst q, connection (snd q))"
      by (rule imageE)
    then show "\<exists>q \<in> set (pendingTabSelection s). fst q = fst p \<and> connection (snd q) = connection (snd p)"
      by (intro bexI [of _ q]) simp_all
  qed
  then show ?thesis using ok
    by (fastforce simp: onTabActivated_def Let_def linksOk_def)
qed

lemma snd_reply [simp]: "snd (reply ok r) = snd r"
  by (simp add: reply_def split: sum.splits error.splits)

lemma linksOk_step: "linksOk s \<Longrightarrow> linksOk (step e s)"
proof (cases e)
  case (Message m sndr env)
  assume ok: "linksOk s"
  show ?thesis using ok Message
    by (cases m)
       (simp_all add: Let_def linksOk_connectToRelay linksOk_connectTab linksOk_disconnect)
qed (simp_all add: linksOk_onTabRemoved linksOk_onTabUpdated linksOk_onTabActivated
       linksOk_timerFired linksOk_markClosed)

lemma linksOk_initial: "linksOk initial"
  by (simp add: linksOk_def initial_def)

lemma reachable_linksOk: "reachable s \<Longrightarrow> linksOk s"
  by (induction rule: reachable.induct) (simp_all add: linksOk_initial linksOk_step)

lemma mapHas_iff: "mapHas k m \<longleftrightarrow> k \<in> fst ` set m"
  by (simp add: mapHas_def map_of_eq_None_iff)

lemma mapHas_mapDelete: "mapHas u (mapDelete t m) \<longleftrightarrow> u \<noteq> t \<and> mapHas u m"
  by (auto simp: mapHas_iff set_mapDelete)

lemma mapHas_mapSet: "mapHas t (mapSet t v m)"
  by (induction m) (auto simp: mapHas_def)

lemma last_key: "m \<noteq> [] \<Longrightarrow> mapKeys m ! (length (mapKeys m) - 1) = fst (last m)"
proof -
  assume ne: "m \<noteq> []"
  then have "mapKeys m \<noteq> []" by (simp add: mapKeys_def)
  then have "last (mapKeys m) = mapKeys m ! (length (mapKeys m) - 1)" by (rule last_conv_nth)
  moreover have "last (mapKeys m) = fst (last m)" using ne by (simp add: mapKeys_def last_map)
  ultimately show ?thesis by simp
qed

lemma mapHas_last: "m \<noteq> [] \<Longrightarrow> mapHas (fst (last m)) m"
  by (simp add: mapHas_iff)

text \<open>What _removeConnectedTab leaves in lastConnectedTabId.\<close>

lemma removeConnectedTab_last:
  "lastConnectedTabId (removeConnectedTab t s) =
     (if lastConnectedTabId s = Some t
      then (if activeConnections s = [] then None else Some (fst (last (activeConnections s))))
      else lastConnectedTabId s)"
proof (cases "activeConnections s = []")
  case True
  then show ?thesis by (simp add: removeConnectedTab_def Let_def mapKeys_def)
next
  case False
  then show ?thesis using last_key [OF False]
    by (simp add: removeConnectedTab_def Let_def) (simp add: mapKeys_def)
qed

lemma lastOk_removeConnectedTab: "lastOkExcept t s \<Longrightarrow> lastOk (removeConnectedTab t s)"
  by (auto simp: lastOk_def lastOkExcept_def removeConnectedTab_last mapHas_last split: option.splits)

lemma lastOkExcept_delete:
  "lastOk s \<Longrightarrow> lastOkExcept t (s\<lparr>activeConnections := mapDelete t (activeConnections s)\<rparr>)"
proof -
  assume ok: "lastOk s"
  have e: "activeConnections s = [] \<Longrightarrow> mapDelete t (activeConnections s) = []"
    by (simp add: mapDelete_def)
  show ?thesis using ok e
    by (auto simp: lastOk_def lastOkExcept_def mapHas_mapDelete)
qed

lemma lastOk_weaken: "lastOk s \<Longrightarrow> lastOkExcept t s"
  by (auto simp: lastOk_def lastOkExcept_def split: option.splits)

lemma lastOk_cong:
  "activeConnections s' = activeConnections s \<Longrightarrow> lastConnectedTabId s' = lastConnectedTabId s \<Longrightarrow>
   lastOk s' = lastOk s"
  by (simp add: lastOk_def)

lemma lastOkExcept_cong:
  "activeConnections s' = activeConnections s \<Longrightarrow> lastConnectedTabId s' = lastConnectedTabId s \<Longrightarrow>
   lastOkExcept t s' = lastOkExcept t s"
  by (simp add: lastOkExcept_def)

lemma lastOk_markClosed: "lastOk s \<Longrightarrow> lastOk (markClosed l s)"
proof -
  assume ok: "lastOk s"
  have a: "\<And>t. lastOk (removeConnectedTab t
              (s\<lparr>links := (links s)(l := (links s l)\<lparr>closed := True\<rparr>),
                 activeConnections := mapDelete t (activeConnections s)\<rparr>))"
  proof (rule lastOk_removeConnectedTab)
    fix t
    show "lastOkExcept t (s\<lparr>links := (links s)(l := (links s l)\<lparr>closed := True\<rparr>),
                 activeConnections := mapDelete t (activeConnections s)\<rparr>)"
      using lastOkExcept_delete [OF ok, of t] by (simp add: lastOkExcept_def)
  qed
  have b: "lastOk (s\<lparr>links := (links s)(l := (links s l)\<lparr>closed := True\<rparr>)\<rparr>)"
    using ok by (simp add: lastOk_def)
  have c: "\<And>k. lastOk (s\<lparr>links := (links s)(l := (links s l)\<lparr>closed := True\<rparr>),
                 pendingTabSelection := mapDelete k (pendingTabSelection s)\<rparr>)"
    using ok by (simp add: lastOk_def)
  show ?thesis using ok a b c
    by (simp add: markClosed_def fireOnclose_def split: closeHandler.splits)
qed

lemma lastOk_closeLink: "lastOk s \<Longrightarrow> lastOk (closeLink l r s)"
proof -
  assume "lastOk s"
  then have "lastOk (s\<lparr>hostCalls := hostCalls s @ [ConnectionClose l r]\<rparr>)"
    by (simp add: lastOk_def)
  then show ?thesis unfolding closeLink_def by (rule lastOk_markClosed)
qed

text \<open>Close, delete, _removeConnectedTab: the sequence of _disconnect and _onTabRemoved.\<close>

lemma lastOk_evict:
  "lastOk s \<Longrightarrow> lastOk (removeConnectedTab t
       ((closeLink c r s)\<lparr>activeConnections := mapDelete t (activeConnections (closeLink c r s))\<rparr>))"
  by (intro lastOk_removeConnectedTab lastOkExcept_delete lastOk_closeLink)

lemma lastOk_connectToRelay: "lastOk s \<Longrightarrow> lastOk (snd (connectToRelay sel url out s))"
  by (cases out) (simp_all add: connectToRelay_def lastOk_def Let_def setOnclose_def)

lemma lastOk_connectTab: "lastOk s \<Longrightarrow> lastOk (snd (connectTab sel t w url he s))"
proof -
  assume ok: "lastOk s"
  define s1 where "s1 = (case mapGet t (activeConnections s) of
                  Some existingConnection \<Rightarrow>
                    (let a = closeLink existingConnection ''New connection requested for this tab'' s;
                         b = a\<lparr>activeConnections := mapDelete t (activeConnections a)\<rparr>
                     in updateBadge t [] None None b)
                | None \<Rightarrow> s)"
  have ok1: "lastOkExcept t s1"
  proof (cases "mapGet t (activeConnections s)")
    case None
    then show ?thesis using ok by (simp add: s1_def lastOk_weaken)
  next
    case (Some c)
    have "lastOkExcept t ((closeLink c ''New connection requested for this tab'' s)
            \<lparr>activeConnections := mapDelete t (activeConnections (closeLink c ''New connection requested for this tab'' s))\<rparr>)"
      by (intro lastOkExcept_delete lastOk_closeLink ok)
    then show ?thesis using Some by (simp add: s1_def Let_def lastOkExcept_def)
  qed
  show ?thesis
  proof (cases "mapGet sel (pendingTabSelection s1)")
    case None
    then show ?thesis using ok1
      by (simp add: connectTab_def s1_def [symmetric] lastOk_removeConnectedTab)
  next
    case (Some e)
    show ?thesis
    proof (cases he)
      case None
      then show ?thesis using Some
        by (simp add: connectTab_def s1_def [symmetric] Let_def lastOk_def mapHas_mapSet
              setOnclose_def setTabId_def)
    next
      case (Some msg)
      have "lastOk (removeConnectedTab t x)" if "lastConnectedTabId x = Some t" for x
        using that by (intro lastOk_removeConnectedTab) (simp add: lastOkExcept_def)
      then show ?thesis using Some \<open>mapGet sel (pendingTabSelection s1) = Some e\<close>
        by (simp add: connectTab_def s1_def [symmetric] Let_def)
    qed
  qed
qed

lemma lastOk_disconnect: "lastOk s \<Longrightarrow> lastOk (disconnect x s)"
proof (cases x)
  case None
  then show ?thesis by (simp add: disconnect_def Let_def lastOk_def)
next
  case (Some t)
  assume ok: "lastOk s"
  show ?thesis using Some ok lastOk_evict [OF ok]
    by (simp add: disconnect_def Let_def split: option.splits)
qed

lemma lastOk_onTabRemoved: "lastOk s \<Longrightarrow> lastOk (onTabRemoved t s)"
proof -
  assume ok: "lastOk s"
  have "lastOk (s\<lparr>pendingTabSelection := mapDelete t (pendingTabSelection s)\<rparr>)"
    using ok by (simp add: lastOk_def)
  then have "\<And>c r. lastOk (closeLink c r (s\<lparr>pendingTabSelection := mapDelete t (pendingTabSelection s)\<rparr>))"
    by (rule lastOk_closeLink)
  then show ?thesis using ok lastOk_evict [OF ok]
    by (simp add: onTabRemoved_def Let_def split: option.splits)
qed

lemma lastOk_onTabUpdated: "lastOk s \<Longrightarrow> lastOk (onTabUpdated t s)"
  by (simp add: onTabUpdated_def lastOk_def)

lemma lastOk_onTabActivated: "lastOk s \<Longrightarrow> lastOk (onTabActivated a s)"
  by (simp add: onTabActivated_def Let_def lastOk_def)

lemma lastOk_timerFired: "lastOk s \<Longrightarrow> lastOk (timerFired i s)"
proof -
  assume ok: "lastOk s"
  have "\<And>k. lastOk (s\<lparr>timers := mapDelete i (timers s),
              pendingTabSelection := mapDelete k (pendingTabSelection s)\<rparr>)"
    using ok by (simp add: lastOk_def)
  then have "\<And>k c r. lastOk (closeLink c r (s\<lparr>timers := mapDelete i (timers s),
              pendingTabSelection := mapDelete k (pendingTabSelection s)\<rparr>))"
    by (rule lastOk_closeLink)
  then have "\<And>k c r h. lastOk ((closeLink c r (s\<lparr>timers := mapDelete i (timers s),
              pendingTabSelection := mapDelete k (pendingTabSelection s)\<rparr>))\<lparr>hostCalls := h\<rparr>)"
    by (simp add: lastOk_def)
  moreover have "\<And>k. lastOk (s\<lparr>timers := mapDelete i (timers s),
              pendingTabSelection := mapDelete k (pendingTabSelection s)\<rparr>)"
    using ok by (simp add: lastOk_def)
  ultimately show ?thesis using ok
    by (simp add: timerFired_def Let_def split: option.splits)
qed

lemma lastOk_step: "lastOk s \<Longrightarrow> lastOk (step e s)"
proof (cases e)
  case (Message m sndr env)
  assume ok: "lastOk s"
  show ?thesis using ok Message
    by (cases m)
       (simp_all add: Let_def lastOk_connectToRelay lastOk_connectTab lastOk_disconnect)
qed (simp_all add: lastOk_onTabRemoved lastOk_onTabUpdated lastOk_onTabActivated
       lastOk_timerFired lastOk_markClosed)

lemma lastOk_initial: "lastOk initial"
  by (simp add: lastOk_def initial_def)

lemma reachable_lastOk: "reachable s \<Longrightarrow> lastOk s"
  by (induction rule: reachable.induct) (simp_all add: lastOk_step lastOk_initial)

lemma mapDelete_absent: "mapGet k m = None \<Longrightarrow> mapDelete k m = m"
  by (simp add: mapGet_def mapDelete_def map_of_eq_None_iff filter_id_conv) force

lemma mapDelete_idem [simp]: "mapDelete k (mapDelete k m) = mapDelete k m"
  by (simp add: mapDelete_def)

lemma mapGet_mapDelete [simp]: "mapGet k (mapDelete k m) = None"
  by (auto simp: mapGet_def mapDelete_def map_of_eq_None_iff)

lemma mapGet_mapSet [simp]: "mapGet k (mapSet k v m) = Some v"
  by (induction m) (auto simp: mapGet_def)

lemma lastKey_mapDelete_neq: "lastKey (mapDelete t m) \<noteq> Some t"
proof (cases "mapDelete t m = []")
  case True
  then show ?thesis by (simp add: lastKey_def)
next
  case False
  then have "last (mapDelete t m) \<in> set (mapDelete t m)" by simp
  then have "fst (last (mapDelete t m)) \<noteq> t" by (simp add: set_mapDelete)
  then show ?thesis using False by (simp add: lastKey_def)
qed

lemma removeConnectedTab_lastKey:
  "lastConnectedTabId (removeConnectedTab t s) =
     (if lastConnectedTabId s = Some t then lastKey (activeConnections s) else lastConnectedTabId s)"
  by (simp add: removeConnectedTab_last lastKey_def)

lemma removeConnectedTab_hostCalls:
  "hostCalls (removeConnectedTab t s) = hostCalls s @ [SetBadgeText t [], SetTitle t []]"
  by (simp add: removeConnectedTab_def updateBadge_def Let_def)

lemma markClosed_active:
  assumes ok: "linksOk s" and g: "mapGet t (activeConnections s) = Some c"
  shows "activeConnections (markClosed c s) = mapDelete t (activeConnections s)"
    and "pendingTabSelection (markClosed c s) = pendingTabSelection s"
    and "lastConnectedTabId (markClosed c s) =
           (if lastConnectedTabId s = Some t then lastKey (mapDelete t (activeConnections s))
            else lastConnectedTabId s)"
    and "links (markClosed c s) = (links s)(c := (links s c)\<lparr>closed := True\<rparr>)"
    and "hostCalls (markClosed c s) = hostCalls s @ [SetBadgeText t [], SetTitle t []]"
proof -
  have "(t, c) \<in> set (activeConnections s)" using g by (rule mapGet_mem)
  then have c: "\<not> closed (links s c)" "onclose (links s c) = ActiveHandler t"
    using ok by (auto simp: linksOk_def)
  then have eq: "markClosed c s = removeConnectedTab t
       (s\<lparr>links := (links s)(c := (links s c)\<lparr>closed := True\<rparr>),
          activeConnections := mapDelete t (activeConnections s)\<rparr>)"
    by (simp add: markClosed_def fireOnclose_def)
  show "activeConnections (markClosed c s) = mapDelete t (activeConnections s)"
    by (simp add: eq)
  show "pendingTabSelection (markClosed c s) = pendingTabSelection s"
    by (simp add: eq)
  show "lastConnectedTabId (markClosed c s) =
           (if lastConnectedTabId s = Some t then lastKey (mapDelete t (activeConnections s))
            else lastConnectedTabId s)"
    by (simp add: eq removeConnectedTab_lastKey)
  show "links (markClosed c s) = (links s)(c := (links s c)\<lparr>closed := True\<rparr>)"
    by (simp add: eq)
  show "hostCalls (markClosed c s) = hostCalls s @ [SetBadgeText t [], SetTitle t []]"
    by (simp add: eq removeConnectedTab_hostCalls)
qed

lemma closeLink_active:
  assumes ok: "linksOk s" and g: "mapGet t (activeConnections s) = Some c"
  shows "activeConnections (closeLink c r s) = mapDelete t (activeConnections s)"
    and "pendingTabSelection (closeLink c r s) = pendingTabSelection s"
    and "lastConnectedTabId (closeLink c r s) =
           (if lastConnectedTabId s = Some t then lastKey (mapDelete t (activeConnections s))
            else lastConnectedTabId s)"
    and "links (closeLink c r s) = (links s)(c := (links s c)\<lparr>closed := True\<rparr>)"
    and "hostCalls (closeLink c r s) = hostCalls s @ [ConnectionClose c r, SetBadgeText t [], SetTitle t []]"
proof -
  let ?s = "s\<lparr>hostCalls := hostCalls s @ [ConnectionClose c r]\<rparr>"
  have ok': "linksOk ?s" using ok by simp
  have g': "mapGet t (activeConnections ?s) = Some c" using g by simp
  note m = markClosed_active [OF ok' g']
  show "activeConnections (closeLink c r s) = mapDelete t (activeConnections s)"
    using m(1) by (simp add: closeLink_def)
  show "pendingTabSelection (closeLink c r s) = pendingTabSelection s"
    using m(2) by (simp add: closeLink_def)
  show "lastConnectedTabId (closeLink c r s) =
           (if lastConnectedTabId s = Some t then lastKey (mapDelete t (activeConnections s))
            else lastConnectedTabId s)"
    using m(3) by (simp add: closeLink_def)
  show "links (closeLink c r s) = (links s)(c := (links s c)\<lparr>closed := True\<rparr>)"
    using m(4) by (simp add: closeLink_def)
  show "hostCalls (closeLink c r s) = hostCalls s @ [ConnectionClose c r, SetBadgeText t [], SetTitle t []]"
    using m(5) by (simp add: closeLink_def)
qed

text \<open>Close, delete, _removeConnectedTab on an active entry of a well-formed state.\<close>

lemma evict_active:
  fixes r :: string
  assumes ok: "linksOk s" and g: "mapGet t (activeConnections s) = Some c"
  defines "s' \<equiv> removeConnectedTab t
       ((closeLink c r s)\<lparr>activeConnections := mapDelete t (activeConnections (closeLink c r s))\<rparr>)"
  shows "activeConnections s' = mapDelete t (activeConnections s)"
    and "pendingTabSelection s' = pendingTabSelection s"
    and "lastConnectedTabId s' =
           (if lastConnectedTabId s = Some t then lastKey (mapDelete t (activeConnections s))
            else lastConnectedTabId s)"
    and "links s' = (links s)(c := (links s c)\<lparr>closed := True\<rparr>)"
proof -
  note m = closeLink_active [OF ok g, of r]
  show "activeConnections s' = mapDelete t (activeConnections s)"
    by (simp add: s'_def m(1))
  show "pendingTabSelection s' = pendingTabSelection s"
    by (simp add: s'_def m(2))
  show "links s' = (links s)(c := (links s c)\<lparr>closed := True\<rparr>)"
    by (simp add: s'_def m(4))
  show "lastConnectedTabId s' =
           (if lastConnectedTabId s = Some t then lastKey (mapDelete t (activeConnections s))
            else lastConnectedTabId s)"
    using lastKey_mapDelete_neq [of t "activeConnections s"]
    by (simp add: s'_def removeConnectedTab_lastKey m(1) m(3))
qed

section \<open>Evaluating the scenarios\<close>

lemmas eval_defs = connectToRelay_def connectTab_def disconnect_def onTabRemoved_def onTabActivated_def
  timerFired_def closeLink_def markClosed_def fireOnclose_def removeConnectedTab_def updateBadge_def
  addConnectedTab_def setOnclose_def setTabId_def setTimeout_def clearTimeout_def truthy_def
  mapGet_def mapHas_def mapDelete_def mapKeys_def freshConnection_def initial_def Let_def

lemma onePending_eq:
  "onePending = \<lparr>activeConnections = [], lastConnectedTabId = None,
      pendingTabSelection = [(1, \<lparr>connection = 0, timerId = None\<rparr>)],
      links = (\<lambda>_. freshConnection)(0 := \<lparr>closed = False, boundTab = None, onclose = PendingHandler 1\<rparr>),
      nextLink = 1, timers = [], nextTimer = 1, hostCalls = []\<rparr>"
  by (simp add: onePending_def connectToRelay_def setOnclose_def initial_def freshConnection_def Let_def)

lemma oneBound_vals:
  "activeConnections oneBound = [(2, 0)]"
  "lastConnectedTabId oneBound = Some 2"
  "pendingTabSelection oneBound = []"
  "closed (links oneBound 0) = False"
  "onclose (links oneBound 0) = ActiveHandler 2"
  "nextLink oneBound = 1"
  by (simp_all add: oneBound_def onePending_eq eval_defs)


lemma reachable_connectToRelay: "reachable s \<Longrightarrow> reachable (snd (connectToRelay sel url out s))"
proof -
  assume r: "reachable s"
  have "step (Message (ConnectToMCPRelay url) \<lparr>senderTabId = sel, senderWindowId = 0\<rparr>
              \<lparr>socketOutcome = out, hostError = None, hostTabs = []\<rparr>) s
          = snd (connectToRelay sel url out s)"
    by simp
  then show ?thesis using reachable_step [OF r] by metis
qed

lemma reachable_connectTab:
  "reachable s \<Longrightarrow> t \<noteq> 0 \<Longrightarrow> w \<noteq> 0 \<Longrightarrow> reachable (snd (connectTab sel t w url he s))"
proof -
  assume r: "reachable s" and nz: "t \<noteq> 0" "w \<noteq> 0"
  have "step (Message (ConnectToTab (Some t) (Some w) url) \<lparr>senderTabId = sel, senderWindowId = 0\<rparr>
              \<lparr>socketOutcome = SocketOpened, hostError = he, hostTabs = []\<rparr>) s
          = snd (connectTab sel t w url he s)"
    using nz by (simp add: orElse_def Let_def)
  then show ?thesis using reachable_step [OF r] by metis
qed

lemma reachable_disconnect: "reachable s \<Longrightarrow> reachable (disconnect x s)"
proof -
  assume r: "reachable s"
  have "step (Message (Disconnect x) \<lparr>senderTabId = 0, senderWindowId = 0\<rparr>
              \<lparr>socketOutcome = SocketOpened, hostError = None, hostTabs = []\<rparr>) s = disconnect x s"
    by simp
  then show ?thesis using reachable_step [OF r] by metis
qed

lemma reachable_onTabActivated: "reachable s \<Longrightarrow> reachable (onTabActivated a s)"
  using reachable_step [of s "TabActivated a"] by simp

lemma reachable_onTabRemoved: "reachable s \<Longrightarrow> reachable (onTabRemoved a s)"
  using reachable_step [of s "TabRemoved a"] by simp

lemma reachable_timerFired: "reachable s \<Longrightarrow> reachable (timerFired a s)"
  using reachable_step [of s "TimerFired a"] by simp

lemma reachable_onePending: "reachable onePending"
  unfolding onePending_def by (intro reachable_connectToRelay reachable_initial)

lemma reachable_oneBound: "reachable oneBound"
  unfolding oneBound_def by (intro reachable_connectTab reachable_onePending) simp_all

lemma reachable_boundAndPending: "reachable boundAndPending"
  unfolding boundAndPending_def by (intro reachable_connectToRelay reachable_oneBound)

lemma reachable_twoPending: "reachable twoPending"
  unfolding twoPending_def by (intro reachable_connectToRelay reachable_onePending)

lemma reachable_onePendingArmed: "reachable onePendingArmed"
  unfolding onePendingArmed_def by (intro reachable_onTabActivated reachable_onePending)

lemma reachable_twoBound: "reachable twoBound"
  unfolding twoBound_def
  by (intro reachable_connectTab reachable_connectToRelay reachable_onePending) simp_all

lemma lastKey_cases:
  "(case lastKey m of None \<Rightarrow> m = [] | Some u \<Rightarrow> mapHas u m)"
  by (simp add: lastKey_def mapHas_last)

lemma lastResetAfterRemoval_intro:
  "activeConnections s' = mapDelete t (activeConnections s) \<Longrightarrow>
   lastConnectedTabId s' = lastKey (mapDelete t (activeConnections s)) \<Longrightarrow>
   lastResetAfterRemoval t s s'"
  using lastKey_cases [of "mapDelete t (activeConnections s)"]
  by (simp add: lastResetAfterRemoval_def split: option.splits)

lemma twoBound_vals:
  "activeConnections twoBound = [(3, 0), (7, 1)]"
  "lastConnectedTabId twoBound = Some 7"
  "pendingTabSelection twoBound = []"
  by (simp_all add: twoBound_def onePending_eq eval_defs)

lemma fireOnclose_links [simp]: "links (fireOnclose h s) = links s"
  by (simp add: fireOnclose_def split: closeHandler.splits)

lemma closeLink_closed: "closed (links (closeLink l r s) l)"
  by (simp add: closeLink_def markClosed_def)

lemma mapGet_mapDelete_None: "mapGet k m = None \<Longrightarrow> mapGet k (mapDelete j m) = None"
  by (auto simp: mapGet_def mapDelete_def map_of_eq_None_iff)

lemma closeLink_pending_None:
  "mapGet k (pendingTabSelection s) = None \<Longrightarrow> mapGet k (pendingTabSelection (closeLink l r s)) = None"
  by (simp add: closeLink_def markClosed_def fireOnclose_def mapGet_mapDelete_None
        split: closeHandler.splits)

text \<open>The first step of _connectTab: the active connection of the target tab is closed and deleted.\<close>

lemma connectTab_unfold:
  "connectTab sel t w url he s =
     (let s1 = (case mapGet t (activeConnections s) of
                  Some c \<Rightarrow> updateBadge t [] None None
                     ((closeLink c ''New connection requested for this tab'' s)
                        \<lparr>activeConnections := mapDelete t
                           (activeConnections (closeLink c ''New connection requested for this tab'' s))\<rparr>)
                | None \<Rightarrow> s)
      in case mapGet sel (pendingTabSelection s1) of
           None \<Rightarrow> (Inl (Error ''No active MCP relay connection''), removeConnectedTab t s1)
         | Some pending \<Rightarrow>
             (let s4 = (setOnclose (connection pending) (ActiveHandler t)
                         (setTabId (connection pending) t
                            (s1\<lparr>pendingTabSelection := mapDelete sel (pendingTabSelection s1)\<rparr>)))
                        \<lparr>activeConnections := mapSet t (connection pending) (activeConnections s1),
                          lastConnectedTabId := Some t\<rparr>;
                  s5 = (addConnectedTab t s4)\<lparr>hostCalls := hostCalls (addConnectedTab t s4)
                          @ [TabsUpdateActive t, WindowsUpdateFocused w]\<rparr>
              in case he of
                   None \<Rightarrow> (Inr (), s5)
                 | Some msg \<Rightarrow> (Inl (Error msg), removeConnectedTab t s5)))"
  by (simp add: connectTab_def Let_def setOnclose_def setTabId_def split: option.splits)

lemma connectTab_timers [simp]: "timers (snd (connectTab sel t w url he s)) = timers s"
  by (simp add: connectTab_unfold Let_def setOnclose_def setTabId_def split: option.splits)

lemma onTabRemoved_timers [simp]: "timers (onTabRemoved t s) = timers s"
  by (simp add: onTabRemoved_def Let_def split: option.splits)

lemma onePendingArmed_eq:
  "onePendingArmed = \<lparr>activeConnections = [], lastConnectedTabId = None,
      pendingTabSelection = [(1, \<lparr>connection = 0, timerId = Some 1\<rparr>)],
      links = (\<lambda>_. freshConnection)(0 := \<lparr>closed = False, boundTab = None, onclose = PendingHandler 1\<rparr>),
      nextLink = 1, timers = [(1, (1, 0))], nextTimer = 2, hostCalls = []\<rparr>"
  by (simp add: onePendingArmed_def onePending_eq onTabActivated_def setTimeout_def truthy_def Let_def)

text \<open>A timer that fires while the pending map has no entry under its selector tab only leaves the set of armed timers.\<close>

lemma timerFired_without_entry:
  "mapGet i (timers s) = Some cl \<Longrightarrow> mapGet (fst cl) (pendingTabSelection s) = None \<Longrightarrow>
   timerFired i s = s\<lparr>timers := mapDelete i (timers s)\<rparr>"
  by (simp add: timerFired_def Let_def mapHas_def mapGet_def mapDelete_absent [unfolded mapGet_def])

lemma promotedArmed_vals:
  "activeConnections promotedArmed = [(2, 0)]"
  "pendingTabSelection promotedArmed = []"
  "timers promotedArmed = [(1, (1, 0))]"
  by (simp_all add: promotedArmed_def onePendingArmed_eq eval_defs)

lemma twoPending_eq:
  "twoPending = \<lparr>activeConnections = [], lastConnectedTabId = None,
      pendingTabSelection = [(1, \<lparr>connection = 0, timerId = None\<rparr>), (2, \<lparr>connection = 1, timerId = None\<rparr>)],
      links = (\<lambda>_. freshConnection)(0 := \<lparr>closed = False, boundTab = None, onclose = PendingHandler 1\<rparr>,
                 1 := \<lparr>closed = False, boundTab = None, onclose = PendingHandler 2\<rparr>),
      nextLink = 2, timers = [], nextTimer = 1, hostCalls = []\<rparr>"
  by (simp add: twoPending_def onePending_eq connectToRelay_def setOnclose_def freshConnection_def Let_def)

lemma mixedTimers_eq:
  "mixedTimers = \<lparr>activeConnections = [], lastConnectedTabId = None,
      pendingTabSelection = [(1, \<lparr>connection = 0, timerId = None\<rparr>), (2, \<lparr>connection = 1, timerId = Some 2\<rparr>)],
      links = (\<lambda>_. freshConnection)(0 := \<lparr>closed = False, boundTab = None, onclose = PendingHandler 1\<rparr>,
                 1 := \<lparr>closed = False, boundTab = None, onclose = PendingHandler 2\<rparr>),
      nextLink = 2, timers = [(2, (2, 1))], nextTimer = 3, hostCalls = [ClearTimeout 1]\<rparr>"
  by (simp add: mixedTimers_def twoPending_eq onTabActivated_def setTimeout_def clearTimeout_def
        truthy_def mapDelete_def Let_def)

section \<open>The claims\<close>

text \<open>C1. In every reachable state, that is after every event the broker has handled, a
  relay link is referenced by at most one of the pending map and the active map, and a
  closed link is referenced by neither.\<close>

theorem link_in_at_most_one_map:
  assumes "reachable s"
  shows "(l \<in> pendingLinks s \<longrightarrow> l \<notin> activeLinks s) \<and>
         (closed (links s l) \<longrightarrow> l \<notin> pendingLinks s \<and> l \<notin> activeLinks s)"
proof -
  have ok: "linksOk s" using assms by (rule reachable_linksOk)
  have p: "\<not> closed (links s l) \<and> (\<exists>k. onclose (links s l) = PendingHandler k)" if "l \<in> pendingLinks s"
    using that ok by (auto simp: pendingLinks_def linksOk_def)
  have a: "\<not> closed (links s l) \<and> (\<exists>k. onclose (links s l) = ActiveHandler k)" if "l \<in> activeLinks s"
    using that ok by (auto simp: activeLinks_def linksOk_def)
  show ?thesis using p a by auto
qed

theorem link_in_at_most_one_map_witness:
  "reachable boundAndPending \<and> 1 \<in> pendingLinks boundAndPending \<and> 1 \<notin> activeLinks boundAndPending \<and>
   0 \<in> activeLinks boundAndPending \<and> 0 \<notin> pendingLinks boundAndPending"
proof -
  have p: "1 \<in> pendingLinks boundAndPending"
    by (simp add: pendingLinks_def boundAndPending_def oneBound_def onePending_eq eval_defs)
  have a: "0 \<in> activeLinks boundAndPending"
    by (simp add: activeLinks_def boundAndPending_def oneBound_def onePending_eq eval_defs)
  show ?thesis
    using link_in_at_most_one_map [OF reachable_boundAndPending, of 1]
      link_in_at_most_one_map [OF reachable_boundAndPending, of 0] p a reachable_boundAndPending
    by blast
qed

text \<open>C2, as the code has it. When no pending entry exists for the selector tab,
  \<open>connectToTab\<close> fails with the error \<open>No active MCP relay connection\<close>, creates no active
  connection and leaves the pending map and the timers as they were. The state is not
  unchanged, though: an active connection of the target tab is closed and deleted before
  the pending entry is looked up, and \<open>lastConnectedTabId\<close> is then recomputed if it was the
  target tab. Only when the target tab has no active connection do the active map, the
  links and \<open>lastConnectedTabId\<close> keep their values.\<close>

theorem connectTab_without_pending_entry:
  assumes "reachable s" and "mapGet sel (pendingTabSelection s) = None"
    and "r = connectTab sel t w url he s"
  shows "fst r = Inl (Error ''No active MCP relay connection'') \<and>
         pendingTabSelection (snd r) = pendingTabSelection s \<and>
         activeConnections (snd r) = mapDelete t (activeConnections s) \<and>
         timers (snd r) = timers s \<and>
         (mapGet t (activeConnections s) = None \<longrightarrow>
            activeConnections (snd r) = activeConnections s \<and> links (snd r) = links s \<and>
            lastConnectedTabId (snd r) = lastConnectedTabId s) \<and>
         (\<forall>c. mapGet t (activeConnections s) = Some c \<longrightarrow>
            links (snd r) = (links s)(c := (links s c)\<lparr>closed := True\<rparr>) \<and>
            lastConnectedTabId (snd r) =
              (if lastConnectedTabId s = Some t then lastKey (mapDelete t (activeConnections s))
               else lastConnectedTabId s))"
proof (cases "mapGet t (activeConnections s)")
  case None
  have "lastOk s" using assms(1) by (rule reachable_lastOk)
  then have nl: "lastConnectedTabId s \<noteq> Some t"
    using None by (auto simp: lastOk_def mapHas_def mapGet_def)
  have r: "r = (Inl (Error ''No active MCP relay connection''), removeConnectedTab t s)"
    using None assms(2,3) by (simp add: connectTab_unfold)
  show ?thesis using None nl
    by (simp add: r mapDelete_absent removeConnectedTab_lastKey)
next
  case (Some c)
  have ok: "linksOk s" using assms(1) by (rule reachable_linksOk)
  let ?reason = "''New connection requested for this tab''"
  note cl = closeLink_active [OF ok Some, of ?reason]
  define s1 where "s1 = updateBadge t [] None None
       ((closeLink c ?reason s)\<lparr>activeConnections := mapDelete t (activeConnections (closeLink c ?reason s))\<rparr>)"
  have f: "pendingTabSelection s1 = pendingTabSelection s"
      "activeConnections s1 = mapDelete t (activeConnections s)"
      "links s1 = (links s)(c := (links s c)\<lparr>closed := True\<rparr>)"
      "timers s1 = timers s"
      "lastConnectedTabId s1 = (if lastConnectedTabId s = Some t then lastKey (mapDelete t (activeConnections s))
               else lastConnectedTabId s)"
    by (simp_all add: s1_def cl)
  have r: "r = (Inl (Error ''No active MCP relay connection''), removeConnectedTab t s1)"
    using Some assms(2,3) f(1) by (simp add: connectTab_unfold s1_def [symmetric])
  have "lastConnectedTabId s1 \<noteq> Some t"
    using lastKey_mapDelete_neq [of t "activeConnections s"] by (simp add: f(5))
  then have "lastConnectedTabId (removeConnectedTab t s1) = lastConnectedTabId s1"
    by (simp add: removeConnectedTab_lastKey)
  then show ?thesis using Some by (simp add: r f)
qed

theorem connectTab_without_pending_entry_witness:
  "reachable oneBound \<and> mapGet 1 (pendingTabSelection oneBound) = None \<and>
   fst (connectTab 1 2 10 ''ws'' None oneBound) = Inl (Error ''No active MCP relay connection'') \<and>
   pendingTabSelection (snd (connectTab 1 2 10 ''ws'' None oneBound)) = [] \<and>
   activeConnections (snd (connectTab 1 2 10 ''ws'' None oneBound)) = [] \<and>
   lastConnectedTabId (snd (connectTab 1 2 10 ''ws'' None oneBound)) = None"
proof -
  have h: "mapGet 1 (pendingTabSelection oneBound) = None"
    by (simp add: oneBound_vals mapGet_def)
  have g: "mapGet 2 (activeConnections oneBound) = Some 0"
    by (simp add: oneBound_vals mapGet_def)
  show ?thesis
    using connectTab_without_pending_entry [OF reachable_oneBound h refl, of 2 10 "''ws''" None]
      reachable_oneBound h g
    by (simp add: oneBound_vals mapDelete_def lastKey_def)
qed

text \<open>C2 as stated fails in \<open>oneBound\<close>: tab 1 has no pending entry left, tab 2 is connected
  and is the last connected tab. A second \<open>connectToTab\<close> from tab 1 for tab 2 closes the link
  of tab 2, empties the active map and resets \<open>lastConnectedTabId\<close>.\<close>

theorem connectTab_without_pending_entry_counterexample:
  "mapGet 1 (pendingTabSelection oneBound) = None \<and>
   activeConnections oneBound = [(2, 0)] \<and>
   lastConnectedTabId oneBound = Some 2 \<and>
   \<not> closed (links oneBound 0) \<and>
   activeConnections (snd (connectTab 1 2 10 ''ws'' None oneBound)) = [] \<and>
   lastConnectedTabId (snd (connectTab 1 2 10 ''ws'' None oneBound)) = None \<and>
   closed (links (snd (connectTab 1 2 10 ''ws'' None oneBound)) 0)"
  by (simp add: oneBound_def onePending_eq eval_defs)

text \<open>C3 at the input where the code departs from it: tab 1 asks for a relay link twice. The
  second call succeeds and the pending entry of tab 1 holds the new link 1, but link 0 is
  still open and no close was asked of it. When the socket of link 0 closes later, its
  callback deletes the pending entry that now holds link 1.\<close>

theorem replaced_pending_link_stays_open:
  "reachable (snd (connectToRelay 1 ''ws'' SocketOpened onePending)) \<and>
   pendingTabSelection onePending = [(1, \<lparr>connection = 0, timerId = None\<rparr>)] \<and>
   fst (connectToRelay 1 ''ws'' SocketOpened onePending) = Inr () \<and>
   pendingTabSelection (snd (connectToRelay 1 ''ws'' SocketOpened onePending))
     = [(1, \<lparr>connection = 1, timerId = None\<rparr>)] \<and>
   \<not> closed (links (snd (connectToRelay 1 ''ws'' SocketOpened onePending)) 0) \<and>
   hostCalls (snd (connectToRelay 1 ''ws'' SocketOpened onePending)) = [] \<and>
   pendingTabSelection (step (SocketClosed 0) (snd (connectToRelay 1 ''ws'' SocketOpened onePending))) = []"
proof -
  have "reachable (snd (connectToRelay 1 ''ws'' SocketOpened onePending))"
    by (intro reachable_connectToRelay reachable_onePending)
  then show ?thesis by (simp add: onePending_eq eval_defs)
qed

text \<open>C4 at the input where the code departs from it: tabs 1 and 2 hold pending links
  without timers and tab 3 is activated. Only the entry of tab 1 gets a timer; the loop
  returns before it reaches the entry of tab 2.\<close>

theorem activation_arms_only_first_entry:
  "reachable twoPending \<and>
   pendingTabSelection twoPending
     = [(1, \<lparr>connection = 0, timerId = None\<rparr>), (2, \<lparr>connection = 1, timerId = None\<rparr>)] \<and>
   pendingTabSelection (onTabActivated 3 twoPending)
     = [(1, \<lparr>connection = 0, timerId = Some 1\<rparr>), (2, \<lparr>connection = 1, timerId = None\<rparr>)] \<and>
   timers (onTabActivated 3 twoPending) = [(1, (1, 0))]"
  using reachable_twoPending
  by (simp add: twoPending_eq onTabActivated_def setTimeout_def truthy_def Let_def)

text \<open>C5 at the input where the code departs from it: in \<open>mixedTimers\<close> the entry of tab 1 has
  no timer and the entry of tab 2, later in the map, has timer 2 armed. Activating tab 2
  arms a timer for tab 1 and returns, so timer 2 stays armed; when it fires, the entry of
  tab 2 is removed, its link is closed and tab 2 is sent \<open>connectionTimeout\<close>.\<close>

theorem activation_of_later_tab_keeps_its_timer:
  "reachable mixedTimers \<and>
   pendingTabSelection mixedTimers
     = [(1, \<lparr>connection = 0, timerId = None\<rparr>), (2, \<lparr>connection = 1, timerId = Some 2\<rparr>)] \<and>
   timers mixedTimers = [(2, (2, 1))] \<and>
   pendingTabSelection (onTabActivated 2 mixedTimers)
     = [(1, \<lparr>connection = 0, timerId = Some 3\<rparr>), (2, \<lparr>connection = 1, timerId = Some 2\<rparr>)] \<and>
   timers (onTabActivated 2 mixedTimers) = [(2, (2, 1)), (3, (1, 0))] \<and>
   pendingTabSelection (timerFired 2 (onTabActivated 2 mixedTimers))
     = [(1, \<lparr>connection = 0, timerId = Some 3\<rparr>)] \<and>
   closed (links (timerFired 2 (onTabActivated 2 mixedTimers)) 1) \<and>
   hostCalls (timerFired 2 (onTabActivated 2 mixedTimers)) = hostCalls mixedTimers @
     [ConnectionClose 1 ''Tab has been inactive for 5 seconds'', TabsSendMessage 2 ''connectionTimeout'']"
proof -
  have r: "reachable mixedTimers"
    unfolding mixedTimers_def by (intro reachable_onTabActivated reachable_twoPending)
  have "pendingTabSelection mixedTimers
     = [(1, \<lparr>connection = 0, timerId = None\<rparr>), (2, \<lparr>connection = 1, timerId = Some 2\<rparr>)] \<and>
   timers mixedTimers = [(2, (2, 1))] \<and>
   pendingTabSelection (onTabActivated 2 mixedTimers)
     = [(1, \<lparr>connection = 0, timerId = Some 3\<rparr>), (2, \<lparr>connection = 1, timerId = Some 2\<rparr>)] \<and>
   timers (onTabActivated 2 mixedTimers) = [(2, (2, 1)), (3, (1, 0))] \<and>
   pendingTabSelection (timerFired 2 (onTabActivated 2 mixedTimers))
     = [(1, \<lparr>connection = 0, timerId = Some 3\<rparr>)] \<and>
   closed (links (timerFired 2 (onTabActivated 2 mixedTimers)) 1) \<and>
   hostCalls (timerFired 2 (onTabActivated 2 mixedTimers)) = hostCalls mixedTimers @
     [ConnectionClose 1 ''Tab has been inactive for 5 seconds'', TabsSendMessage 2 ''connectionTimeout'']"
    by (simp add: mixedTimers_eq eval_defs)
  then show ?thesis using r by simp
qed

text \<open>C6, as the code has it. For a pending entry with an armed timer, neither the promotion
  by \<open>connectToTab\<close> nor the closing of the selector tab cancels the timer: the entry leaves
  the pending map (promoted to the active map, or its link closed), and the timer is
  still armed afterwards.\<close>

theorem timer_survives_promotion_and_tab_close:
  assumes "reachable s" and "mapGet sel (pendingTabSelection s) = Some e"
    and "timerId e = Some i" and "mapGet i (timers s) = Some (sel, connection e)"
  shows "mapGet sel (pendingTabSelection (snd (connectTab sel t w url he s))) = None \<and>
         mapGet t (activeConnections (snd (connectTab sel t w url he s))) = Some (connection e) \<and>
         mapGet i (timers (snd (connectTab sel t w url he s))) = Some (sel, connection e) \<and>
         mapGet sel (pendingTabSelection (onTabRemoved sel s)) = None \<and>
         closed (links (onTabRemoved sel s) (connection e)) \<and>
         mapGet i (timers (onTabRemoved sel s)) = Some (sel, connection e)"
proof -
  have ok: "linksOk s" using assms(1) by (rule reachable_linksOk)
  define s1 where "s1 = (case mapGet t (activeConnections s) of
                  Some c \<Rightarrow> updateBadge t [] None None
                     ((closeLink c ''New connection requested for this tab'' s)
                        \<lparr>activeConnections := mapDelete t
                           (activeConnections (closeLink c ''New connection requested for this tab'' s))\<rparr>)
                | None \<Rightarrow> s)"
  have p1: "pendingTabSelection s1 = pendingTabSelection s"
  proof (cases "mapGet t (activeConnections s)")
    case None
    then show ?thesis by (simp add: s1_def)
  next
    case (Some c)
    then show ?thesis using closeLink_active(2) [OF ok Some] by (simp add: s1_def)
  qed
  have g1: "mapGet sel (pendingTabSelection s1) = Some e" using assms(2) p1 by simp
  have c1: "mapGet sel (pendingTabSelection (snd (connectTab sel t w url he s))) = None"
    using g1 by (cases he) (simp_all add: connectTab_unfold s1_def [symmetric] Let_def setOnclose_def setTabId_def)
  have c2: "mapGet t (activeConnections (snd (connectTab sel t w url he s))) = Some (connection e)"
    using g1 by (cases he) (simp_all add: connectTab_unfold s1_def [symmetric] Let_def setOnclose_def setTabId_def)
  have r: "onTabRemoved sel s = closeLink (connection e) ''Browser tab closed''
            (s\<lparr>pendingTabSelection := mapDelete sel (pendingTabSelection s)\<rparr>)"
    using assms(2) by (simp add: onTabRemoved_def)
  have c4: "mapGet sel (pendingTabSelection (onTabRemoved sel s)) = None"
    unfolding r by (rule closeLink_pending_None) simp
  have c5: "closed (links (onTabRemoved sel s) (connection e))"
    unfolding r by (rule closeLink_closed)
  show ?thesis using c1 c2 c4 c5 assms(4) by simp
qed

theorem timer_survives_promotion_and_tab_close_witness:
  "reachable onePendingArmed \<and>
   mapGet 1 (pendingTabSelection onePendingArmed) = Some \<lparr>connection = 0, timerId = Some 1\<rparr> \<and>
   mapGet 1 (timers onePendingArmed) = Some (1, 0) \<and>
   mapGet 2 (activeConnections (snd (connectTab 1 2 10 ''ws'' None onePendingArmed))) = Some 0 \<and>
   mapGet 1 (timers (snd (connectTab 1 2 10 ''ws'' None onePendingArmed))) = Some (1, 0) \<and>
   mapGet 1 (timers (onTabRemoved 1 onePendingArmed)) = Some (1, 0)"
proof -
  have g: "mapGet 1 (pendingTabSelection onePendingArmed) = Some \<lparr>connection = 0, timerId = Some 1\<rparr>"
    by (simp add: onePendingArmed_eq mapGet_def)
  have i: "timerId \<lparr>connection = 0, timerId = Some 1\<rparr> = Some 1" by simp
  have m: "mapGet 1 (timers onePendingArmed) = Some (1, connection \<lparr>connection = 0, timerId = Some 1\<rparr>)"
    by (simp add: onePendingArmed_eq mapGet_def)
  show ?thesis
    using timer_survives_promotion_and_tab_close [OF reachable_onePendingArmed g i m, of 2 10 "''ws''" None]
      reachable_onePendingArmed g
    by simp
qed

text \<open>C6 as stated fails in \<open>onePendingArmed\<close>: timer 1 is armed for the pending entry of
  tab 1, and it is still among the armed timers after the entry is promoted to tab 2, and
  after tab 1 is closed.\<close>

theorem timer_not_cancelled_counterexample:
  "mapGet 1 (pendingTabSelection onePendingArmed) = Some \<lparr>connection = 0, timerId = Some 1\<rparr> \<and>
   timers onePendingArmed = [(1, (1, 0))] \<and>
   fst (connectTab 1 2 10 ''ws'' None onePendingArmed) = Inr () \<and>
   activeConnections (snd (connectTab 1 2 10 ''ws'' None onePendingArmed)) = [(2, 0)] \<and>
   pendingTabSelection (snd (connectTab 1 2 10 ''ws'' None onePendingArmed)) = [] \<and>
   timers (snd (connectTab 1 2 10 ''ws'' None onePendingArmed)) = [(1, (1, 0))] \<and>
   pendingTabSelection (onTabRemoved 1 onePendingArmed) = [] \<and>
   timers (onTabRemoved 1 onePendingArmed) = [(1, (1, 0))]"
  by (simp add: onePendingArmed_eq eval_defs)

text \<open>C7. When the active connection of the tab that \<open>lastConnectedTabId\<close> names is removed,
  \<open>lastConnectedTabId\<close> is reset to a tab that still has an active connection, or to none
  when no active connection remains. This is shown for the delete and
  \<open>_removeConnectedTab\<close> that every removal path runs, for \<open>disconnect(tabId)\<close>, for the socket
  closing and for the tab closing, where the active map loses exactly the entry of that
  tab; and for any event whatever after which the tab has no active connection. With
  tabs 3 and 7 active and 7 the last one, removing 7 leaves 3.\<close>

theorem last_tab_recomputed_on_removal:
  assumes "reachable s" and "lastConnectedTabId s = Some t"
    and "mapGet t (activeConnections s) = Some c"
  shows "lastResetAfterRemoval t s
           (removeConnectedTab t (s\<lparr>activeConnections := mapDelete t (activeConnections s)\<rparr>)) \<and>
         lastResetAfterRemoval t s (disconnect (Some t) s) \<and>
         lastResetAfterRemoval t s (step (SocketClosed c) s) \<and>
         (mapGet t (pendingTabSelection s) = None \<longrightarrow> lastResetAfterRemoval t s (onTabRemoved t s)) \<and>
         (\<forall>e. \<not> mapHas t (activeConnections (step e s)) \<longrightarrow>
              lastConnectedTabId (step e s) \<noteq> Some t \<and>
              (case lastConnectedTabId (step e s) of
                 None \<Rightarrow> activeConnections (step e s) = []
               | Some u \<Rightarrow> mapHas u (activeConnections (step e s))))"
proof -
  have ok: "linksOk s" using assms(1) by (rule reachable_linksOk)
  note ev = evict_active [OF ok assms(3)]
  have f: "lastResetAfterRemoval t s
           (removeConnectedTab t (s\<lparr>activeConnections := mapDelete t (activeConnections s)\<rparr>))"
    using assms(2)
    by (intro lastResetAfterRemoval_intro) (simp_all add: removeConnectedTab_lastKey)
  have d: "lastResetAfterRemoval t s (disconnect (Some t) s)"
    using ev(1) [of "''User disconnected''"] ev(3) [of "''User disconnected''"] assms(2,3)
    by (intro lastResetAfterRemoval_intro) (simp_all add: disconnect_def Let_def)
  have "(t, c) \<in> set (activeConnections s)" using assms(3) by (rule mapGet_mem)
  then have lt: "c < nextLink s" using ok by (auto simp: linksOk_def)
  note m = markClosed_active [OF ok assms(3)]
  have c: "lastResetAfterRemoval t s (step (SocketClosed c) s)"
    using m(1) m(3) assms(2) lt by (intro lastResetAfterRemoval_intro) simp_all
  have r: "lastResetAfterRemoval t s (onTabRemoved t s)" if "mapGet t (pendingTabSelection s) = None"
    using ev(1) [of "''Browser tab closed''"] ev(3) [of "''Browser tab closed''"] assms(2,3) that
    by (intro lastResetAfterRemoval_intro) (simp_all add: onTabRemoved_def Let_def)
  have g: "lastConnectedTabId (step e s) \<noteq> Some t \<and>
              (case lastConnectedTabId (step e s) of
                 None \<Rightarrow> activeConnections (step e s) = []
               | Some u \<Rightarrow> mapHas u (activeConnections (step e s)))"
    if "\<not> mapHas t (activeConnections (step e s))" for e
  proof -
    have "reachable (step e s)" using assms(1) by (rule reachable_step)
    then have "lastOk (step e s)" by (rule reachable_lastOk)
    then show ?thesis using that by (auto simp: lastOk_def split: option.splits)
  qed
  show ?thesis using f d c r g by blast
qed

theorem last_tab_recomputed_on_removal_witness:
  "reachable twoBound \<and> lastConnectedTabId twoBound = Some 7 \<and>
   mapGet 7 (activeConnections twoBound) = Some 1 \<and>
   activeConnections (disconnect (Some 7) twoBound) = [(3, 0)] \<and>
   lastConnectedTabId (disconnect (Some 7) twoBound) = Some 3"
proof -
  have g: "mapGet 7 (activeConnections twoBound) = Some 1"
    by (simp add: twoBound_vals mapGet_def)
  have "lastResetAfterRemoval 7 twoBound (disconnect (Some 7) twoBound)"
    using last_tab_recomputed_on_removal [OF reachable_twoBound twoBound_vals(2) g] by blast
  then have a: "activeConnections (disconnect (Some 7) twoBound) = [(3, 0)]"
    and l: "case lastConnectedTabId (disconnect (Some 7) twoBound) of
              None \<Rightarrow> activeConnections (disconnect (Some 7) twoBound) = []
            | Some u \<Rightarrow> mapHas u (activeConnections (disconnect (Some 7) twoBound))"
    by (simp_all add: lastResetAfterRemoval_def twoBound_vals mapDelete_def split: option.splits)
  have "lastConnectedTabId (disconnect (Some 7) twoBound) = Some 3"
    using l by (simp add: a mapHas_def split: option.splits if_splits)
  then show ?thesis using reachable_twoBound twoBound_vals(2) g a by simp
qed

text \<open>C8. \<open>disconnect(tabId)\<close> for a tab without an active connection succeeds and changes
  nothing: the whole state, the record of host calls included, is the one before.\<close>

theorem disconnect_absent_tab_is_noop:
  assumes "mapGet t (activeConnections s) = None"
  shows "disconnect (Some t) s = s \<and> onMessage (Disconnect (Some t)) sndr env s = (Success, s)"
  using assms by (simp add: disconnect_def)

theorem disconnect_absent_tab_is_noop_witness:
  "mapGet 5 (activeConnections oneBound) = None \<and> disconnect (Some 5) oneBound = oneBound \<and>
   activeConnections (disconnect (Some 5) oneBound) = [(2, 0)]"
proof -
  have h: "mapGet 5 (activeConnections oneBound) = None"
    by (simp add: oneBound_vals mapGet_def)
  show ?thesis using disconnect_absent_tab_is_noop [OF h] h by (simp add: oneBound_vals)
qed

text \<open>C9. \<open>getConnectionStatus\<close> answers with \<open>lastConnectedTabId\<close> and the keys of the active
  map, \<open>getAllConnections\<close> with one tab id per active connection; neither fails and both
  return the state they were given.\<close>

theorem status_queries_are_pure_reads:
  "onMessage GetConnectionStatus sndr env s
     = (ConnectionStatus (lastConnectedTabId s) (map fst (activeConnections s)), s) \<and>
   onMessage GetAllConnections sndr env s = (AllConnections (map fst (activeConnections s)), s)"
  by (simp add: mapKeys_def)

theorem status_queries_are_pure_reads_witness:
  "onMessage GetConnectionStatus \<lparr>senderTabId = 4, senderWindowId = 10\<rparr>
      \<lparr>socketOutcome = SocketOpened, hostError = None, hostTabs = []\<rparr> twoBound
     = (ConnectionStatus (Some 7) [3, 7], twoBound) \<and>
   onMessage GetAllConnections \<lparr>senderTabId = 4, senderWindowId = 10\<rparr>
      \<lparr>socketOutcome = SocketOpened, hostError = None, hostTabs = []\<rparr> twoBound
     = (AllConnections [3, 7], twoBound)"
proof -
  have "lastConnectedTabId twoBound = Some 7" "map fst (activeConnections twoBound) = [3, 7]"
    by (simp_all add: twoBound_def onePending_eq eval_defs)
  then show ?thesis
    using status_queries_are_pure_reads [of "\<lparr>senderTabId = 4, senderWindowId = 10\<rparr>"
        "\<lparr>socketOutcome = SocketOpened, hostError = None, hostTabs = []\<rparr>" twoBound]
    by simp
qed

text \<open>C10 at the input where the code departs from it: in \<open>staleTimer\<close> the entry timer 1 was
  armed for has been promoted to tab 2, and tab 1 has a new pending entry with link 1. The
  callback tests only whether the key of tab 1 is in the pending map, so when timer 1
  fires it deletes the new entry, closes link 0 (the active connection of tab 2), and
  sends \<open>connectionTimeout\<close> to tab 1; link 1 is left open and unreferenced.\<close>

theorem stale_timer_closes_promoted_link:
  "reachable staleTimer \<and>
   activeConnections staleTimer = [(2, 0)] \<and>
   pendingTabSelection staleTimer = [(1, \<lparr>connection = 1, timerId = None\<rparr>)] \<and>
   timers staleTimer = [(1, (1, 0))] \<and>
   activeConnections (timerFired 1 staleTimer) = [] \<and>
   pendingTabSelection (timerFired 1 staleTimer) = [] \<and>
   closed (links (timerFired 1 staleTimer) 0) \<and>
   \<not> closed (links (timerFired 1 staleTimer) 1) \<and>
   hostCalls (timerFired 1 staleTimer) = hostCalls staleTimer @
     [ConnectionClose 0 ''Tab has been inactive for 5 seconds'', SetBadgeText 2 [], SetTitle 2 [],
      TabsSendMessage 1 ''connectionTimeout'']"
proof -
  have r: "reachable staleTimer"
    unfolding staleTimer_def promotedArmed_def
    by (intro reachable_connectToRelay reachable_connectTab reachable_onePendingArmed) simp_all
  have "activeConnections staleTimer = [(2, 0)] \<and>
   pendingTabSelection staleTimer = [(1, \<lparr>connection = 1, timerId = None\<rparr>)] \<and>
   timers staleTimer = [(1, (1, 0))] \<and>
   activeConnections (timerFired 1 staleTimer) = [] \<and>
   pendingTabSelection (timerFired 1 staleTimer) = [] \<and>
   closed (links (timerFired 1 staleTimer) 0) \<and>
   \<not> closed (links (timerFired 1 staleTimer) 1) \<and>
   hostCalls (timerFired 1 staleTimer) = hostCalls staleTimer @
     [ConnectionClose 0 ''Tab has been inactive for 5 seconds'', SetBadgeText 2 [], SetTitle 2 [],
      TabsSendMessage 1 ''connectionTimeout'']"
    by (simp add: staleTimer_def promotedArmed_def onePendingArmed_eq eval_defs)
  then show ?thesis using r by simp
qed

end
